theory Spec2Isabelle
  imports Complex_Main "HOL-Library.Multiset" "HOL-Library.Log_Nat"
begin

section \<open>Values and dates of the host language\<close>

text \<open>
  The metrics engine is the pair of helper functions at the end of
  \<^verbatim>\<open>src/server/api/routers/analytics.ts\<close>: \<^verbatim>\<open>calculatePercentageChange\<close> and
  \<^verbatim>\<open>calculateMonthMetrics\<close>.

  JavaScript numbers are modelled as exact rationals: every quantity below is a finite
  number. The functions are first read in exact arithmetic; a second reading of the same
  lines, \<open>loopBodyWith\<close> and \<open>calculateMonthMetricsWith\<close>, rounds the result of every
  floating-point operation, and with \<open>roundDouble\<close> as the rounding it is the arithmetic of
  IEEE binary64 numbers.

  The two price fields of a reservation are typed \<^verbatim>\<open>any\<close> in the source, and the
  database schema that fixes their column type is not among the source files. They are
  selected from database rows, so a field is \<^verbatim>\<open>null\<close>, a primitive number (a float
  column) or a \<^verbatim>\<open>Decimal\<close> object (a decimal column; the file imports
  \<^verbatim>\<open>Decimal\<close>, converts the fields with \<^verbatim>\<open>Number(...)\<close>, and annotates the
  \<^verbatim>\<open>any\<close> fields of its raw query rows as "Decimal object or null"). The source
  tests the fields for truthiness, where the two kinds of number differ: the primitive
  \<^verbatim>\<open>0\<close> is falsy, every object is truthy.
\<close>

datatype jsvalue = JNull | JNumber rat | JDecimal rat

text \<open>The condition of \<^verbatim>\<open>if (v)\<close>.\<close>

fun truthy :: "jsvalue \<Rightarrow> bool" where
  "truthy JNull = False"
| "truthy (JNumber x) = (x \<noteq> 0)"
| "truthy (JDecimal x) = True"

text \<open>\<^verbatim>\<open>Number(v)\<close>.\<close>

fun Number :: "jsvalue \<Rightarrow> rat" where
  "Number JNull = 0"
| "Number (JNumber x) = x"
| "Number (JDecimal x) = x"

text \<open>
  A \<^verbatim>\<open>Date\<close> is its time value: milliseconds since 1970-01-01T00:00Z. Only valid
  dates are modelled.
\<close>

type_synonym date = int

definition msPerDay :: int where
  "msPerDay = 86400000"

text \<open>
  The functions imported from the date library (\<^verbatim>\<open>date-fns\<close>), which is not part of
  the repository. They follow the library's algorithm, for a server whose local time zone is
  UTC (no daylight saving shifts). \<^verbatim>\<open>isAfter\<close> and \<^verbatim>\<open>isBefore\<close> compare the time
  values strictly. \<^verbatim>\<open>differenceInDays\<close> is the number of full days between two
  instants, with the sign of their order: the library takes the sign of the comparison and
  the absolute difference in calendar days, moves the later date back by that many days,
  and takes one day off when the moved date has passed the earlier one.
\<close>

definition isAfter :: "date \<Rightarrow> date \<Rightarrow> bool" where
  "isAfter d dateToCompare = (d > dateToCompare)"

definition isBefore :: "date \<Rightarrow> date \<Rightarrow> bool" where
  "isBefore d dateToCompare = (d < dateToCompare)"

definition compareLocalAsc :: "date \<Rightarrow> date \<Rightarrow> int" where
  "compareLocalAsc laterDate earlierDate = sgn (laterDate - earlierDate)"

definition differenceInCalendarDays :: "date \<Rightarrow> date \<Rightarrow> int" where
  "differenceInCalendarDays laterDate earlierDate =
     laterDate div msPerDay - earlierDate div msPerDay"

definition differenceInDays :: "date \<Rightarrow> date \<Rightarrow> int" where
  "differenceInDays laterDate earlierDate =
     (let sign = compareLocalAsc laterDate earlierDate;
          difference = \<bar>differenceInCalendarDays laterDate earlierDate\<bar>;
          shifted = laterDate - sign * difference * msPerDay;
          isLastDayNotFull = (if compareLocalAsc shifted earlierDate = - sign then 1 else 0)
      in sign * (difference - isLastDayNotFull))"

text \<open>
  Calendar dates for the examples: \<open>utcDate y m d\<close> is the time value of
  \<^verbatim>\<open>new Date(Date.UTC(y, m - 1, d))\<close>, midnight UTC of day \<open>d\<close> of month \<open>m\<close> (1 to 12)
  of year \<open>y\<close> in the Gregorian calendar.
\<close>

definition daysFromCivil :: "int \<Rightarrow> int \<Rightarrow> int \<Rightarrow> int" where
  "daysFromCivil y m d =
     (let y' = (if m \<le> 2 then y - 1 else y);
          era = y' div 400;
          yoe = y' - era * 400;
          doy = (153 * ((m + 9) mod 12) + 2) div 5 + d - 1;
          doe = yoe * 365 + yoe div 4 - yoe div 100 + doy
      in era * 146097 + doe - 719468)"

definition utcDate :: "int \<Rightarrow> int \<Rightarrow> int \<Rightarrow> date" where
  "utcDate y m d = daysFromCivil y m d * msPerDay"

section \<open>The metrics engine\<close>

subsection \<open>Percentage change\<close>

text \<open>
  \<^verbatim>\<open>function calculatePercentageChange(current: number | null, previous: number | null)\<close>;
  \<open>None\<close> is \<^verbatim>\<open>null\<close>.
\<close>

definition calculatePercentageChange :: "rat option \<Rightarrow> rat option \<Rightarrow> rat option" where
  "calculatePercentageChange current previous =
     (if current = None \<or> previous = None \<or> previous = Some 0 then None
      else Some (((the current - the previous) / the previous) * 100))"

subsection \<open>Month metrics\<close>

record reservation =
  startDate :: date
  endDate :: date
  totalPrice :: jsvalue
  nightlySubtotal :: jsvalue

record MonthMetrics =
  adr :: "rat option"
  occupancy :: "rat option"
  revpar :: "rat option"
  totalNights :: int
  totalRevenue :: rat
  totalAvailableNights :: int

text \<open>
  The body of the loop over the reservations, as a step on the two accumulators
  \<^verbatim>\<open>totalNights\<close> and \<^verbatim>\<open>totalRevenue\<close> (\<open>fst acc\<close> and \<open>snd acc\<close>). In the
  first revenue branch the source declares a local \<^verbatim>\<open>totalNights\<close> that shadows the
  accumulator; it is \<open>stayNights\<close> here.
\<close>

definition loopBody :: "date \<Rightarrow> date \<Rightarrow> int \<times> rat \<Rightarrow> reservation \<Rightarrow> int \<times> rat" where
  "loopBody monthStart monthEnd acc reservation =
     (let resStart = startDate reservation;
          resEnd = endDate reservation;
          overlapStart = (if isAfter resStart monthStart then resStart else monthStart);
          overlapEnd = (if isBefore resEnd monthEnd then resEnd else monthEnd)
      in if isAfter overlapEnd overlapStart then
           (let nightsInMonth = differenceInDays overlapEnd overlapStart;
                nights = fst acc + nightsInMonth
            in if truthy (nightlySubtotal reservation) then
                 (let stayNights = differenceInDays resEnd resStart;
                      nightlyRate = (if stayNights > 0
                                     then Number (nightlySubtotal reservation) / of_int stayNights
                                     else 0)
                  in (nights, snd acc + nightlyRate * of_int nightsInMonth))
               else if truthy (totalPrice reservation) then
                 (let totalReservationNights = differenceInDays resEnd resStart;
                      monthRevenue = (if totalReservationNights > 0
                                      then (Number (totalPrice reservation) / of_int totalReservationNights)
                                           * of_int nightsInMonth
                                      else 0)
                  in (nights, snd acc + monthRevenue))
               else (nights, snd acc))
         else acc)"

definition calculateMonthMetrics ::
  "reservation list \<Rightarrow> date \<Rightarrow> date \<Rightarrow> int \<Rightarrow> MonthMetrics" where
  "calculateMonthMetrics reservations monthStart monthEnd propertyCount =
     (let totals = foldl (loopBody monthStart monthEnd) (0, 0) reservations;
          nights = fst totals;
          revenue = snd totals;
          daysInMonth = differenceInDays monthEnd monthStart + 1;
          available = propertyCount * daysInMonth
      in \<lparr> adr = (if nights > 0 then Some (revenue / of_int nights) else None),
           occupancy = (if available > 0 then Some ((of_int nights / of_int available) * 100) else None),
           revpar = (if available > 0 then Some (revenue / of_int available) else None),
           totalNights = nights,
           totalRevenue = revenue,
           totalAvailableNights = available \<rparr>)"

subsection \<open>The same lines with rounding\<close>

text \<open>
  Rounding to the nearest binary64 number, ties to the even significand, for numbers in the
  normal range (no overflow to infinity, no subnormal numbers): \<open>exponent2 x\<close> is the
  exponent \<open>e\<close> with \<open>2^e \<le> |x| < 2^(e+1)\<close>, the unit in the last place is
  \<open>2^(e-52)\<close>, and the number is rounded to a whole multiple of it.
\<close>

definition exponent2 :: "rat \<Rightarrow> int" where
  "exponent2 x =
     (if 1 \<le> \<bar>x\<bar> then bitlen \<lfloor>\<bar>x\<bar>\<rfloor> - 1 else - bitlen (\<lceil>1 / \<bar>x\<bar>\<rceil> - 1))"

definition roundHalfEven :: "rat \<Rightarrow> int" where
  "roundHalfEven q =
     (let n = \<lfloor>q\<rfloor>; r = q - of_int n
      in if r < 1 / 2 then n else if 1 / 2 < r then n + 1 else if even n then n else n + 1)"

definition roundDouble :: "rat \<Rightarrow> rat" where
  "roundDouble x =
     (if x = 0 then 0
      else (let ulp = power_int 2 (exponent2 x - 52)
            in of_int (roundHalfEven (x / ulp)) * ulp))"

text \<open>
  The loop body and the aggregate with the result of every floating-point operation
  rounded by \<open>rnd\<close>: the conversions \<^verbatim>\<open>Number(...)\<close>, the divisions, the products and
  the sums of revenue. The nights and the available nights are whole numbers, which binary64
  adds and multiplies exactly below \<open>2^53\<close>; they stay integers.
\<close>

definition loopBodyWith ::
  "(rat \<Rightarrow> rat) \<Rightarrow> date \<Rightarrow> date \<Rightarrow> int \<times> rat \<Rightarrow> reservation \<Rightarrow> int \<times> rat" where
  "loopBodyWith rnd monthStart monthEnd acc reservation =
     (let resStart = startDate reservation;
          resEnd = endDate reservation;
          overlapStart = (if isAfter resStart monthStart then resStart else monthStart);
          overlapEnd = (if isBefore resEnd monthEnd then resEnd else monthEnd)
      in if isAfter overlapEnd overlapStart then
           (let nightsInMonth = differenceInDays overlapEnd overlapStart;
                nights = fst acc + nightsInMonth
            in if truthy (nightlySubtotal reservation) then
                 (let stayNights = differenceInDays resEnd resStart;
                      nightlyRate = (if stayNights > 0
                                     then rnd (rnd (Number (nightlySubtotal reservation)) / of_int stayNights)
                                     else 0)
                  in (nights, rnd (snd acc + rnd (nightlyRate * of_int nightsInMonth))))
               else if truthy (totalPrice reservation) then
                 (let totalReservationNights = differenceInDays resEnd resStart;
                      monthRevenue = (if totalReservationNights > 0
                                      then rnd (rnd (rnd (Number (totalPrice reservation))
                                                     / of_int totalReservationNights)
                                                * of_int nightsInMonth)
                                      else 0)
                  in (nights, rnd (snd acc + monthRevenue)))
               else (nights, snd acc))
         else acc)"

definition calculateMonthMetricsWith ::
  "(rat \<Rightarrow> rat) \<Rightarrow> reservation list \<Rightarrow> date \<Rightarrow> date \<Rightarrow> int \<Rightarrow> MonthMetrics" where
  "calculateMonthMetricsWith rnd reservations monthStart monthEnd propertyCount =
     (let totals = foldl (loopBodyWith rnd monthStart monthEnd) (0, 0) reservations;
          nights = fst totals;
          revenue = snd totals;
          daysInMonth = differenceInDays monthEnd monthStart + 1;
          available = propertyCount * daysInMonth
      in \<lparr> adr = (if nights > 0 then Some (rnd (revenue / of_int nights)) else None),
           occupancy = (if available > 0
                        then Some (rnd (rnd (of_int nights / of_int available) * 100)) else None),
           revpar = (if available > 0 then Some (rnd (revenue / of_int available)) else None),
           totalNights = nights,
           totalRevenue = revenue,
           totalAvailableNights = available \<rparr>)"

text \<open>
  What one reservation adds to the accumulators for a period: the allocation of the
  specification (\<open>nightsInPeriod\<close>, \<open>revenueInPeriod\<close>), read off the loop body.
\<close>

definition nightsInPeriod :: "reservation \<Rightarrow> date \<Rightarrow> date \<Rightarrow> int" where
  "nightsInPeriod r periodStart periodEnd = fst (loopBody periodStart periodEnd (0, 0) r)"

definition revenueInPeriod :: "reservation \<Rightarrow> date \<Rightarrow> date \<Rightarrow> rat" where
  "revenueInPeriod r periodStart periodEnd = snd (loopBody periodStart periodEnd (0, 0) r)"

text \<open>
  The price the two revenue branches of the loop body select: the nightly subtotal when it
  is truthy, else the total price when that is truthy, else nothing.
\<close>

definition authoritativePrice :: "reservation \<Rightarrow> rat" where
  "authoritativePrice r =
     (if truthy (nightlySubtotal r) then Number (nightlySubtotal r)
      else if truthy (totalPrice r) then Number (totalPrice r)
      else 0)"

text \<open>
  The authoritative price in the words of the specification, for comparison: the room
  revenue if present, else the gross price, where present means not null.
\<close>

definition specAuthoritativePrice :: "reservation \<Rightarrow> rat" where
  "specAuthoritativePrice r =
     (if nightlySubtotal r \<noteq> JNull then Number (nightlySubtotal r)
      else if totalPrice r \<noteq> JNull then Number (totalPrice r)
      else 0)"

text \<open>The adjacent periods cut out by a list of boundaries.\<close>

fun periods :: "date list \<Rightarrow> (date \<times> date) list" where
  "periods (a # b # bs) = (a, b) # periods (b # bs)"
| "periods _ = []"

section \<open>Full days between two instants\<close>

text \<open>
  For valid dates in UTC the library algorithm is truncated division of the distance by the
  length of a day.
\<close>

lemma msPerDay_pos: "0 < msPerDay"
  by (simp add: msPerDay_def)

lemma div_shift:
  fixes a b d :: int
  assumes d: "0 < d" and ab: "b < a"
  shows "(a - b) div d = (a div d - b div d) - (if a - (a div d - b div d) * d < b then 1 else 0)"
proof -
  let ?q = "a div d - b div d"
  have a: "a = d * (a div d) + a mod d" by simp
  have b: "b = d * (b div d) + b mod d" by simp
  have ra: "0 \<le> a mod d" "a mod d < d" using d by simp_all
  have rb: "0 \<le> b mod d" "b mod d < d" using d by simp_all
  have sh: "a - ?q * d - b = a mod d - b mod d"
    by (simp add: algebra_simps minus_mult_div_eq_mod)
  show ?thesis
  proof (cases "a mod d < b mod d")
    case True
    then have lt: "a - ?q * d < b" using sh by linarith
    have "a - b = d * (?q - 1) + (a mod d - b mod d + d)"
      using sh by (simp add: algebra_simps)
    moreover have "0 \<le> a mod d - b mod d + d" "a mod d - b mod d + d < d"
      using True ra rb by linarith+
    ultimately have "(a - b) div d = ?q - 1"
      using int_div_pos_eq by blast
    with lt show ?thesis by simp
  next
    case False
    then have ge: "\<not> a - ?q * d < b" using sh by linarith
    have "a - b = d * ?q + (a mod d - b mod d)"
      using sh by (simp add: algebra_simps)
    moreover have "0 \<le> a mod d - b mod d" "a mod d - b mod d < d"
      using False ra rb by linarith+
    ultimately have "(a - b) div d = ?q"
      using int_div_pos_eq by blast
    with ge show ?thesis by simp
  qed
qed

lemma differenceInDays_later:
  assumes "b < a"
  shows "differenceInDays a b = (a - b) div msPerDay"
proof -
  have q: "0 \<le> a div msPerDay - b div msPerDay"
    using assms msPerDay_pos by (simp add: zdiv_mono1)
  have s: "sgn (a - b) = 1" using assms by simp
  have c: "sgn (a - (a div msPerDay - b div msPerDay) * msPerDay - b) = - 1
            \<longleftrightarrow> a - (a div msPerDay - b div msPerDay) * msPerDay < b"
    by (simp add: sgn_if)
  show ?thesis
    unfolding differenceInDays_def compareLocalAsc_def differenceInCalendarDays_def Let_def s
    using q c div_shift [OF msPerDay_pos assms] by simp
qed

lemma differenceInDays_same: "differenceInDays a a = 0"
  by (simp add: differenceInDays_def compareLocalAsc_def)

lemma differenceInDays_earlier:
  assumes "a < b"
  shows "differenceInDays a b = - ((b - a) div msPerDay)"
proof -
  have q: "a div msPerDay - b div msPerDay \<le> 0"
    using assms msPerDay_pos by (simp add: zdiv_mono1)
  have s: "sgn (a - b) = - 1" using assms by simp
  have c: "sgn (a - (a div msPerDay - b div msPerDay) * msPerDay - b) = 1
            \<longleftrightarrow> b - (b div msPerDay - a div msPerDay) * msPerDay < a"
    by (simp add: sgn_if algebra_simps)
  have ab: "\<bar>a div msPerDay - b div msPerDay\<bar> = b div msPerDay - a div msPerDay"
    using q by simp
  show ?thesis
    unfolding differenceInDays_def compareLocalAsc_def differenceInCalendarDays_def Let_def s ab
    using c div_shift [OF msPerDay_pos assms] by simp
qed

lemma differenceInDays_eq:
  "differenceInDays a b =
     (if b \<le> a then (a - b) div msPerDay else - ((b - a) div msPerDay))"
proof -
  consider "b < a" | "a = b" | "a < b" by linarith
  then show ?thesis
    by cases (simp_all add: differenceInDays_later differenceInDays_earlier differenceInDays_same)
qed

lemma differenceInDays_nonneg: "b \<le> a \<Longrightarrow> 0 \<le> differenceInDays a b"
  using msPerDay_pos by (simp add: differenceInDays_eq pos_imp_zdiv_nonneg_iff)

lemma differenceInDays_last_instant:
  assumes "0 < k"
  shows "differenceInDays (a + k * msPerDay - 1) a = k - 1"
proof -
  have "0 < k * msPerDay" using assms msPerDay_pos by simp
  then have le: "a \<le> a + k * msPerDay - 1" by linarith
  have "a + k * msPerDay - 1 - a = msPerDay * (k - 1) + (msPerDay - 1)"
    by (simp add: algebra_simps)
  moreover have "0 \<le> msPerDay - 1" "msPerDay - 1 < msPerDay"
    using msPerDay_pos by simp_all
  ultimately have "(a + k * msPerDay - 1 - a) div msPerDay = k - 1"
    using int_div_pos_eq by blast
  then show ?thesis using le by (simp add: differenceInDays_eq)
qed

section \<open>One reservation in one period\<close>

text \<open>
  The loop body in closed form: the nights are the full days of the clamped overlap, and the
  revenue is the selected price, spread evenly over the nights of the stay.
\<close>

lemma nightsInPeriod_eq:
  "nightsInPeriod r a b =
     (if max (startDate r) a < min (endDate r) b
      then (min (endDate r) b - max (startDate r) a) div msPerDay else 0)"
  unfolding nightsInPeriod_def loopBody_def Let_def isAfter_def isBefore_def
  by (auto simp: differenceInDays_later max_def min_def)

lemma revenueInPeriod_eq:
  "revenueInPeriod r a b =
     (if 0 < differenceInDays (endDate r) (startDate r)
      then authoritativePrice r / of_int (differenceInDays (endDate r) (startDate r))
           * of_int (nightsInPeriod r a b)
      else 0)"
  unfolding revenueInPeriod_def nightsInPeriod_def loopBody_def Let_def authoritativePrice_def
  by simp

lemma loopBody_eq:
  "loopBody a b acc r = (fst acc + nightsInPeriod r a b, snd acc + revenueInPeriod r a b)"
  unfolding revenueInPeriod_def nightsInPeriod_def loopBody_def Let_def
  by (cases acc) simp

lemma nightsInPeriod_nonneg: "0 \<le> nightsInPeriod r a b"
  using msPerDay_pos by (simp add: nightsInPeriod_eq pos_imp_zdiv_nonneg_iff)

lemma foldl_loopBody:
  "foldl (loopBody a b) acc rs =
     (fst acc + sum_list (map (\<lambda>r. nightsInPeriod r a b) rs),
      snd acc + sum_list (map (\<lambda>r. revenueInPeriod r a b) rs))"
  by (induction rs arbitrary: acc) (simp_all add: loopBody_eq algebra_simps)

lemma nightsInPeriod_totalPrice [simp]:
  "nightsInPeriod (r\<lparr>totalPrice := tp\<rparr>) a b = nightsInPeriod r a b"
  by (simp add: nightsInPeriod_eq)

lemma totalNights_nonneg:
  "0 \<le> totalNights (calculateMonthMetrics reservations monthStart monthEnd propertyCount)"
proof -
  have "0 \<le> sum_list (map (\<lambda>r. nightsInPeriod r monthStart monthEnd) reservations)"
    by (rule sum_list_nonneg) (auto simp: nightsInPeriod_nonneg)
  then show ?thesis
    by (simp add: calculateMonthMetrics_def Let_def foldl_loopBody)
qed

lemma authoritativePrice_spec:
  "nightlySubtotal r \<noteq> JNumber 0 \<Longrightarrow> authoritativePrice r = specAuthoritativePrice r"
  unfolding authoritativePrice_def specAuthoritativePrice_def
  by (cases "nightlySubtotal r"; cases "totalPrice r") auto

section \<open>Adjacent periods\<close>

lemma differenceInDays_pos_iff:
  "0 < differenceInDays a b \<longleftrightarrow> b + msPerDay \<le> a"
proof (cases "b \<le> a")
  case True
  then show ?thesis
    using msPerDay_pos pos_imp_zdiv_pos_iff [of msPerDay "a - b"]
    by (simp add: differenceInDays_eq) linarith
next
  case False
  then have "\<not> (b - a) div msPerDay < 0"
    using msPerDay_pos by (simp add: pos_imp_zdiv_neg_iff)
  then show ?thesis using False msPerDay_pos by (simp add: differenceInDays_eq)
qed

lemma nightsInPeriod_le:
  assumes "max (startDate r) a \<le> min (endDate r) b"
  shows "nightsInPeriod r a b = (min (endDate r) b - max (startDate r) a) div msPerDay"
proof -
  define x y where "x = max (startDate r) a" and "y = min (endDate r) b"
  have n: "nightsInPeriod r a b = (if x < y then (y - x) div msPerDay else 0)"
    unfolding x_def y_def by (rule nightsInPeriod_eq)
  have "x \<le> y" using assms by (simp only: x_def y_def)
  then have "(if x < y then (y - x) div msPerDay else 0) = (y - x) div msPerDay"
    by (cases "x = y") simp_all
  then show ?thesis using n by (simp only: x_def y_def)
qed

lemma nights_additive:
  assumes ab: "a \<le> b" and bc: "b \<le> c"
    and al: "startDate r < a \<and> a < endDate r \<longrightarrow> (a - startDate r) mod msPerDay = 0"
    and bl: "startDate r < b \<and> b < endDate r \<longrightarrow> (b - startDate r) mod msPerDay = 0"
  shows "nightsInPeriod r a b + nightsInPeriod r b c = nightsInPeriod r a c"
proof -
  let ?s = "startDate r" and ?e = "endDate r"
  consider (before) "b \<le> ?s" | (after) "?e \<le> b" | (inside) "?s < b" "b < ?e" by linarith
  then show ?thesis
  proof cases
    case before
    have "max ?s a = ?s" "max ?s b = ?s" "min ?e b \<le> ?s" using before ab by simp_all
    then show ?thesis by (simp add: nightsInPeriod_eq)
  next
    case after
    have "min ?e b = ?e" "min ?e c = ?e" "?e \<le> max ?s b" using after bc by simp_all
    then show ?thesis by (simp add: nightsInPeriod_eq)
  next
    case inside
    let ?x = "max ?s a" and ?y = "min ?e c"
    have xb: "?x \<le> b" and by': "b \<le> ?y" using ab bc inside by simp_all
    have "(?x - ?s) mod msPerDay = 0"
    proof (cases "?s < a")
      case True
      then have "a < ?e" "?x = a" using ab inside by simp_all
      then show ?thesis using al True by simp
    next
      case False
      then have "?x = ?s" by simp
      then show ?thesis by simp
    qed
    moreover have "(b - ?s) mod msPerDay = 0" using bl inside by simp
    ultimately have "(b - ?x) mod msPerDay = 0"
      by (metis diff_diff_eq2 diff_add_cancel mod_0 mod_diff_eq diff_self)
    then have "msPerDay dvd b - ?x" by (simp add: mod_eq_0_iff_dvd)
    then obtain k where k: "b - ?x = k * msPerDay" by (auto simp: dvd_def mult.commute)
    have split: "(?y - ?x) div msPerDay = k + (?y - b) div msPerDay"
    proof -
      have eq: "?y - ?x = (?y - b) + k * msPerDay" using k by linarith
      have "((?y - b) + k * msPerDay) div msPerDay = (?y - b) div msPerDay + k"
        using msPerDay_pos by simp
      then show ?thesis unfolding eq by simp
    qed
    have mb: "min ?e b = b" "max ?s b = b" using inside by simp_all
    have "nightsInPeriod r a b = (b - ?x) div msPerDay"
      using nightsInPeriod_le [of r a b] xb mb by simp
    then have left: "nightsInPeriod r a b = k"
      using k msPerDay_pos by simp
    have right: "nightsInPeriod r b c = (?y - b) div msPerDay"
      using nightsInPeriod_le [of r b c] by' mb by simp
    have whole: "nightsInPeriod r a c = (?y - ?x) div msPerDay"
      using nightsInPeriod_le [of r a c] xb by' by linarith
    show ?thesis using left right whole split by simp
  qed
qed

lemma nights_periods:
  assumes "sorted (a # bs)"
    and "\<forall>b\<in>set (a # bs). startDate r < b \<and> b < endDate r \<longrightarrow> (b - startDate r) mod msPerDay = 0"
  shows "sum_list (map (\<lambda>(p, q). nightsInPeriod r p q) (periods (a # bs)))
           = nightsInPeriod r a (last (a # bs))"
  using assms
proof (induction bs arbitrary: a)
  case Nil
  show ?case by (simp add: nightsInPeriod_eq)
next
  case (Cons b bs)
  have ih: "sum_list (map (\<lambda>(p, q). nightsInPeriod r p q) (periods (b # bs)))
              = nightsInPeriod r b (last (b # bs))"
    using Cons.prems by (intro Cons.IH) simp_all
  have ab: "a \<le> b" and bl: "b \<le> last (b # bs)"
    using Cons.prems(1) by auto
  have "nightsInPeriod r a b + nightsInPeriod r b (last (b # bs)) = nightsInPeriod r a (last (b # bs))"
    using Cons.prems(2) by (intro nights_additive [OF ab bl]) simp_all
  then show ?case using ih by simp
qed

lemma revenue_periods:
  "sum_list (map (\<lambda>(p, q). revenueInPeriod r p q) ps) =
     (if 0 < differenceInDays (endDate r) (startDate r)
      then authoritativePrice r / of_int (differenceInDays (endDate r) (startDate r))
           * of_int (sum_list (map (\<lambda>(p, q). nightsInPeriod r p q) ps))
      else 0)"
  by (induction ps) (auto simp: revenueInPeriod_eq algebra_simps)
section \<open>Rounding\<close>

text \<open>
  The rounded number is a significand of 53 bits times a power of two, at most half a unit
  in the last place away from the exact number.
\<close>

lemma exponent2_bounds:
  assumes "x \<noteq> 0"
  shows "power_int 2 (exponent2 x) \<le> \<bar>x\<bar> \<and> \<bar>x\<bar> < power_int 2 (exponent2 x + 1)"
proof (cases "1 \<le> \<bar>x\<bar>")
  case True
  define n where "n = \<lfloor>\<bar>x\<bar>\<rfloor>"
  have n1: "1 \<le> n" using True by (simp add: n_def le_floor_iff)
  then have b: "2 ^ nat (bitlen n - 1) \<le> n" "n < 2 ^ nat (bitlen n)"
    using bitlen_bounds [of n] by simp_all
  have b1: "1 \<le> bitlen n" using n1 by (simp add: bitlen_alt_def)
  have e: "exponent2 x = bitlen n - 1" using True by (simp add: exponent2_def n_def)
  have "(of_int (2 ^ nat (bitlen n - 1)) :: rat) \<le> of_int n" using b(1) by (simp only: of_int_le_iff)
  also have "\<dots> \<le> \<bar>x\<bar>" by (simp add: n_def)
  finally have lo: "(2 :: rat) ^ nat (bitlen n - 1) \<le> \<bar>x\<bar>" by simp
  have "\<bar>x\<bar> < of_int (n + 1)" unfolding n_def by linarith
  also have "(of_int (n + 1) :: rat) \<le> of_int (2 ^ nat (bitlen n))"
    using b(2) by (simp only: of_int_le_iff) 
  finally have hi: "\<bar>x\<bar> < (2 :: rat) ^ nat (bitlen n)" by simp
  show ?thesis using lo hi b1 by (simp add: e power_int_def)
next
  case False
  define y where "y = 1 / \<bar>x\<bar>"
  have xpos: "0 < \<bar>x\<bar>" using assms by simp
  have y1: "1 < y" using False xpos by (simp add: y_def)
  define c where "c = \<lceil>y\<rceil>"
  have c2: "2 \<le> c" using y1 unfolding c_def by linarith
  define m where "m = bitlen (c - 1)"
  have b: "2 ^ nat (m - 1) \<le> c - 1" "c - 1 < 2 ^ nat m"
    using bitlen_bounds [of "c - 1"] c2 by (simp_all add: m_def)
  have m1: "1 \<le> m" using c2 by (simp add: m_def bitlen_alt_def)
  have e: "exponent2 x = - m" using False by (simp add: exponent2_def m_def c_def y_def)
  have "(of_int (2 ^ nat (m - 1)) :: rat) \<le> of_int (c - 1)" using b(1) by (simp only: of_int_le_iff)
  also have "\<dots> < y" unfolding c_def by linarith
  finally have lo: "(2 :: rat) ^ nat (m - 1) < y" by simp
  have "y \<le> of_int c" unfolding c_def by linarith
  also have "(of_int c :: rat) \<le> of_int (2 ^ nat m)"
    using b(2) by (simp only: of_int_le_iff)
  finally have hi: "y \<le> (2 :: rat) ^ nat m" by simp
  have x: "\<bar>x\<bar> = 1 / y" using xpos by (simp add: y_def)
  have ypos: "0 < y" using y1 by simp
  have A: "1 / (2 :: rat) ^ nat m \<le> \<bar>x\<bar>"
    unfolding x using hi ypos by (simp add: frac_le)
  have B: "\<bar>x\<bar> < 1 / (2 :: rat) ^ nat (m - 1)"
    unfolding x using lo ypos by (simp add: frac_less2)
  have p1: "power_int (2 :: rat) (- m) = 1 / 2 ^ nat m"
    using m1 by (simp add: power_int_def field_simps)
  have p2: "power_int (2 :: rat) (1 - m) = 1 / 2 ^ nat (m - 1)"
  proof (cases "m = 1")
    case True then show ?thesis by simp
  next
    case False
    then have "1 - m < 0" using m1 by simp
    moreover have "nat (m - 1) = nat (- (1 - m))" by simp
    ultimately show ?thesis by (simp add: power_int_def field_simps)
  qed
  show ?thesis using A B by (simp add: e p1 p2)
qed

lemma roundHalfEven_cases:
  "(roundHalfEven q = \<lfloor>q\<rfloor> \<and> q - of_int \<lfloor>q\<rfloor> \<le> 1 / 2)
   \<or> (roundHalfEven q = \<lfloor>q\<rfloor> + 1 \<and> 1 / 2 \<le> q - of_int \<lfloor>q\<rfloor>)"
  unfolding roundHalfEven_def Let_def by auto

lemma roundHalfEven_nearest: "\<bar>of_int (roundHalfEven q) - q\<bar> \<le> 1 / 2"
proof -
  have f: "of_int \<lfloor>q\<rfloor> \<le> q" "q < of_int \<lfloor>q\<rfloor> + 1" by linarith+
  from roundHalfEven_cases [of q] show ?thesis
  proof
    assume "roundHalfEven q = \<lfloor>q\<rfloor> \<and> q - of_int \<lfloor>q\<rfloor> \<le> 1 / 2"
    then show ?thesis using f by simp
  next
    assume "roundHalfEven q = \<lfloor>q\<rfloor> + 1 \<and> 1 / 2 \<le> q - of_int \<lfloor>q\<rfloor>"
    then show ?thesis using f by simp
  qed
qed

lemma roundDouble_error:
  assumes "x \<noteq> 0"
  shows "\<bar>roundDouble x - x\<bar> \<le> power_int 2 (exponent2 x - 53)"
proof -
  define ulp :: rat where "ulp = power_int 2 (exponent2 x - 52)"
  have upos: "0 < ulp" by (simp add: ulp_def)
  have half: "power_int (2 :: rat) (exponent2 x - 53) = ulp / 2"
    using power_int_add [of "2 :: rat" "exponent2 x - 53" 1] by (simp add: ulp_def)
  have "roundDouble x - x = (of_int (roundHalfEven (x / ulp)) - x / ulp) * ulp"
    using assms upos by (simp add: roundDouble_def ulp_def Let_def field_simps)
  then have "\<bar>roundDouble x - x\<bar> = \<bar>of_int (roundHalfEven (x / ulp)) - x / ulp\<bar> * ulp"
    using upos by (simp add: abs_mult)
  also have "\<dots> \<le> 1 / 2 * ulp"
    using roundHalfEven_nearest [of "x / ulp"] upos by (intro mult_right_mono) simp_all
  finally show ?thesis by (simp add: half)
qed

lemma roundDouble_significand:
  assumes "x \<noteq> 0"
  shows "\<exists>m. roundDouble x = of_int m * power_int 2 (exponent2 x - 52)
             \<and> 2 ^ 52 \<le> \<bar>m\<bar> \<and> \<bar>m\<bar> \<le> 2 ^ 53"
proof -
  define ulp :: rat where "ulp = power_int 2 (exponent2 x - 52)"
  define q where "q = x / ulp"
  have upos: "0 < ulp" by (simp add: ulp_def)
  have lo: "power_int 2 (exponent2 x) = 2 ^ 52 * ulp"
    using power_int_add [of "2 :: rat" "exponent2 x - 52" 52] by (simp add: ulp_def)
  have hi: "power_int 2 (exponent2 x + 1) = 2 ^ 53 * ulp"
    using power_int_add [of "2 :: rat" "exponent2 x - 52" 53] by (simp add: ulp_def add.commute mult.commute)
  have aq: "\<bar>q\<bar> = \<bar>x\<bar> / ulp" using upos by (simp add: q_def)
  have q: "2 ^ 52 \<le> \<bar>q\<bar>" "\<bar>q\<bar> < 2 ^ 53"
    using exponent2_bounds [OF assms] upos unfolding lo hi aq
    by (simp_all add: pos_le_divide_eq pos_divide_less_eq)
  define n where "n = \<lfloor>q\<rfloor>"
  have rc: "(roundHalfEven q = n \<and> q - of_int n \<le> 1 / 2)
            \<or> (roundHalfEven q = n + 1 \<and> 1 / 2 \<le> q - of_int n)"
    unfolding n_def by (rule roundHalfEven_cases)
  have m: "2 ^ 52 \<le> \<bar>roundHalfEven q\<bar> \<and> \<bar>roundHalfEven q\<bar> \<le> 2 ^ 53"
  proof (cases "0 \<le> q")
    case True
    then have "(2 :: rat) ^ 52 \<le> q" "q < 2 ^ 53" using q by simp_all
    then have "2 ^ 52 \<le> n" "n < 2 ^ 53"
      unfolding n_def by (simp_all add: le_floor_iff floor_less_iff)
    then show ?thesis using rc by auto
  next
    case False
    then have b: "q \<le> - (2 ^ 52)" "- (2 ^ 53) < q" using q by simp_all
    then have f1: "n \<le> - (2 ^ 52)" "- (2 ^ 53) \<le> n"
      unfolding n_def by (simp_all add: floor_le_iff le_floor_iff)
    from rc show ?thesis
    proof
      assume "roundHalfEven q = n \<and> q - of_int n \<le> 1 / 2"
      then show ?thesis using f1 by simp
    next
      assume r: "roundHalfEven q = n + 1 \<and> 1 / 2 \<le> q - of_int n"
      then have "of_int n < q" by simp
      then have "of_int n < (of_int (- (2 ^ 52)) :: rat)" using b(1) by simp
      then have "n < - (2 ^ 52)" by (simp only: of_int_less_iff)
      then show ?thesis using r f1 by simp
    qed
  qed
  have "roundDouble x = of_int (roundHalfEven q) * power_int 2 (exponent2 x - 52)"
    using assms by (simp add: roundDouble_def q_def ulp_def Let_def)
  then show ?thesis using m by blast
qed

text \<open>
  Without rounding the second reading is the first, and with any rounding it counts the same
  nights.
\<close>

lemma loopBodyWith_exact: "loopBodyWith (\<lambda>x. x) = loopBody"
  by (intro ext) (simp add: loopBodyWith_def loopBody_def)

lemma calculateMonthMetricsWith_exact: "calculateMonthMetricsWith (\<lambda>x. x) = calculateMonthMetrics"
  by (intro ext) (simp add: calculateMonthMetricsWith_def calculateMonthMetrics_def loopBodyWith_exact)

lemma fst_loopBodyWith:
  "fst (loopBodyWith rnd a b acc r) = fst acc + nightsInPeriod r a b"
  unfolding loopBodyWith_def nightsInPeriod_def loopBody_def Let_def by simp

lemma fst_foldl_loopBodyWith:
  "fst (foldl (loopBodyWith rnd a b) acc rs)
     = fst acc + sum_list (map (\<lambda>r. nightsInPeriod r a b) rs)"
  by (induction rs arbitrary: acc) (simp_all add: fst_loopBodyWith algebra_simps)

lemma order_independence_exact:
  assumes "mset reservations = mset reservations'"
  shows "calculateMonthMetrics reservations monthStart monthEnd propertyCount
           = calculateMonthMetrics reservations' monthStart monthEnd propertyCount"
proof -
  have n: "sum_list (map f reservations) = sum_list (map f reservations')"
    for f :: "reservation \<Rightarrow> int"
    using assms by (metis mset_map sum_mset_sum_list)
  have v: "sum_list (map g reservations) = sum_list (map g reservations')"
    for g :: "reservation \<Rightarrow> rat"
    using assms by (metis mset_map sum_mset_sum_list)
  have "foldl (loopBody monthStart monthEnd) (0, 0) reservations
               = foldl (loopBody monthStart monthEnd) (0, 0) reservations'"
    by (simp add: foldl_loopBody n v)
  then show ?thesis by (simp add: calculateMonthMetrics_def)
qed

section \<open>Evaluation of the examples\<close>

lemmas date_eval = utcDate_def daysFromCivil_def msPerDay_def differenceInDays_def
  compareLocalAsc_def differenceInCalendarDays_def isAfter_def isBefore_def Let_def

lemmas calendar_eval = utcDate_def daysFromCivil_def msPerDay_def Let_def

lemmas alloc_eval = nightsInPeriod_def revenueInPeriod_def loopBody_def authoritativePrice_def

lemma utcDate_examples:
  "utcDate 1970 1 1 = 0"
  "utcDate 2025 1 15 = 1736899200000"
  "utcDate 2024 2 29 = 1709164800000"
  "utcDate 2025 7 10 = 1752105600000"
  by (simp_all add: calendar_eval)

lemma roundDouble_examples:
  "roundDouble (1 / 10) = 3602879701896397 / 36028797018963968"
  "roundDouble (roundDouble (1 / 10) + roundDouble (2 / 10)) = 1351079888211149 / 4503599627370496"
  "roundDouble (8995 / 100) = 6329668538780877 / 70368744177664"
  "roundDouble (1 / 2) = 1 / 2"
  by code_simp+

section \<open>Conservation across adjacent periods\<close>

text \<open>
  Claim C1 says that for every reservation with a valid date range, split over adjacent
  periods that cover it, the nights of the periods add up to the nights of the stay and the
  revenues add up to the authoritative price (the room revenue if present, else the gross
  price).

  As stated this fails in two ways. The nights of a period are full days
  (\<^verbatim>\<open>differenceInDays\<close> truncates), so a boundary that cuts the stay at another time
  of day than the check-in loses the part days on both sides: a stay from 30 June 15:00 to
  2 July 15:00 has two nights, and the periods \<open>[1 June, 1 July)\<close> and
  \<open>[1 July, 1 August)\<close> receive none and one, with 0 and 100 of the 200 of revenue.
  And the price is selected by truthiness, so a room revenue that is the number 0 gives way
  to the gross price: the periods then receive the 130 of gross price, not 0.
\<close>

theorem conservation_counterexample:
  "nightsInPeriod \<lparr>startDate = utcDate 2025 6 30 + 54000000, endDate = utcDate 2025 7 2 + 54000000,
                    totalPrice = JNull, nightlySubtotal = JNumber 200\<rparr>
       (utcDate 2025 6 1) (utcDate 2025 7 1)
   + nightsInPeriod \<lparr>startDate = utcDate 2025 6 30 + 54000000, endDate = utcDate 2025 7 2 + 54000000,
                    totalPrice = JNull, nightlySubtotal = JNumber 200\<rparr>
       (utcDate 2025 7 1) (utcDate 2025 8 1)
   = 1
   \<and> differenceInDays (utcDate 2025 7 2 + 54000000) (utcDate 2025 6 30 + 54000000) = 2
   \<and> revenueInPeriod \<lparr>startDate = utcDate 2025 6 30 + 54000000, endDate = utcDate 2025 7 2 + 54000000,
                    totalPrice = JNull, nightlySubtotal = JNumber 200\<rparr>
       (utcDate 2025 6 1) (utcDate 2025 7 1)
   + revenueInPeriod \<lparr>startDate = utcDate 2025 6 30 + 54000000, endDate = utcDate 2025 7 2 + 54000000,
                    totalPrice = JNull, nightlySubtotal = JNumber 200\<rparr>
       (utcDate 2025 7 1) (utcDate 2025 8 1)
   = 100
   \<and> specAuthoritativePrice
       \<lparr>startDate = utcDate 2025 6 30 + 54000000, endDate = utcDate 2025 7 2 + 54000000,
        totalPrice = JNull, nightlySubtotal = JNumber 200\<rparr> = 200
   \<and> revenueInPeriod \<lparr>startDate = utcDate 2025 6 30, endDate = utcDate 2025 7 2,
                    totalPrice = JNumber 130, nightlySubtotal = JNumber 0\<rparr>
       (utcDate 2025 6 1) (utcDate 2025 7 1)
   + revenueInPeriod \<lparr>startDate = utcDate 2025 6 30, endDate = utcDate 2025 7 2,
                    totalPrice = JNumber 130, nightlySubtotal = JNumber 0\<rparr>
       (utcDate 2025 7 1) (utcDate 2025 8 1)
   = 130
   \<and> specAuthoritativePrice
       \<lparr>startDate = utcDate 2025 6 30, endDate = utcDate 2025 7 2,
        totalPrice = JNumber 130, nightlySubtotal = JNumber 0\<rparr> = 0"
  by (simp add: alloc_eval specAuthoritativePrice_def date_eval)

text \<open>
  Claim C1, amended. Take a reservation of at least one full night and a sorted list of
  boundaries that starts at or before the check-in and ends at or after the check-out,
  such that every boundary strictly inside the stay is a whole number of days after the
  check-in. Then over the periods between consecutive boundaries, each passed as
  \<open>[monthStart, monthEnd)\<close>, the nights add up to the nights of the stay, and the revenues
  add up (in exact arithmetic) to the price the loop body selects: the nightly subtotal when
  it is truthy, else the total price when that is truthy, else 0. Unless the nightly
  subtotal is the number 0, that is the authoritative price of the specification.
\<close>

theorem conservation_aligned:
  assumes stay: "0 < differenceInDays (endDate r) (startDate r)"
    and sorted: "sorted bs" and ne: "bs \<noteq> []"
    and cover: "hd bs \<le> startDate r" "endDate r \<le> last bs"
    and aligned: "\<forall>b\<in>set bs. startDate r < b \<and> b < endDate r \<longrightarrow> (b - startDate r) mod msPerDay = 0"
  shows "sum_list (map (\<lambda>(p, q). nightsInPeriod r p q) (periods bs))
           = differenceInDays (endDate r) (startDate r)
       \<and> sum_list (map (\<lambda>(p, q). revenueInPeriod r p q) (periods bs))
           = authoritativePrice r
       \<and> (nightlySubtotal r \<noteq> JNumber 0 \<longrightarrow>
            sum_list (map (\<lambda>(p, q). revenueInPeriod r p q) (periods bs))
              = specAuthoritativePrice r)"
proof -
  obtain a bs' where bs: "bs = a # bs'" using ne by (cases bs) auto
  have se: "startDate r < endDate r"
    using stay msPerDay_pos by (simp add: differenceInDays_pos_iff)
  have "sum_list (map (\<lambda>(p, q). nightsInPeriod r p q) (periods bs)) = nightsInPeriod r a (last bs)"
    using nights_periods [of a bs' r] sorted aligned unfolding bs by simp
  also have "\<dots> = (endDate r - startDate r) div msPerDay"
    using nightsInPeriod_le [of r a "last bs"] cover se unfolding bs by simp
  also have "\<dots> = differenceInDays (endDate r) (startDate r)"
    using se by (simp add: differenceInDays_eq)
  finally have n: "sum_list (map (\<lambda>(p, q). nightsInPeriod r p q) (periods bs))
                    = differenceInDays (endDate r) (startDate r)" .
  have v: "sum_list (map (\<lambda>(p, q). revenueInPeriod r p q) (periods bs)) = authoritativePrice r"
    using n stay by (simp add: revenue_periods)
  show ?thesis using n v authoritativePrice_spec [of r] by simp
qed

text \<open>
  The amended law at the stay from 20 May to 10 July over the months May, June and July:
  51 nights and the whole 2000.
\<close>

theorem conservation_aligned_witness:
  "sum_list (map (\<lambda>(p, q). nightsInPeriod
        \<lparr>startDate = utcDate 2025 5 20, endDate = utcDate 2025 7 10,
         totalPrice = JNumber 2300, nightlySubtotal = JNumber 2000\<rparr> p q)
      (periods [utcDate 2025 5 1, utcDate 2025 6 1, utcDate 2025 7 1, utcDate 2025 8 1])) = 51
   \<and> sum_list (map (\<lambda>(p, q). revenueInPeriod
        \<lparr>startDate = utcDate 2025 5 20, endDate = utcDate 2025 7 10,
         totalPrice = JNumber 2300, nightlySubtotal = JNumber 2000\<rparr> p q)
      (periods [utcDate 2025 5 1, utcDate 2025 6 1, utcDate 2025 7 1, utcDate 2025 8 1])) = 2000"
  using conservation_aligned [of
      "\<lparr>startDate = utcDate 2025 5 20, endDate = utcDate 2025 7 10,
         totalPrice = JNumber 2300, nightlySubtotal = JNumber 2000\<rparr>"
      "[utcDate 2025 5 1, utcDate 2025 6 1, utcDate 2025 7 1, utcDate 2025 8 1]"]
  by (simp add: date_eval authoritativePrice_def specAuthoritativePrice_def)

section \<open>The multi-month example\<close>

text \<open>
  Claim C2 says that a reservation from 20 May to 10 July with room revenue 2000 has 50
  nights, 11 of them in May, 30 in June and 9 in July, and that June receives
  \<open>2000 * 30 / 50 = 1200\<close>. The count is off by one: from 20 May to 1 June there are 12
  nights, the stay has 51, and June receives \<open>2000 * 30 / 51\<close>.
\<close>

theorem multi_month_counterexample:
  "nightsInPeriod \<lparr>startDate = utcDate 2025 5 20, endDate = utcDate 2025 7 10,
                    totalPrice = JNull, nightlySubtotal = JNumber 2000\<rparr>
       (utcDate 2025 5 1) (utcDate 2025 6 1) \<noteq> 11
   \<and> differenceInDays (utcDate 2025 7 10) (utcDate 2025 5 20) \<noteq> 50
   \<and> revenueInPeriod \<lparr>startDate = utcDate 2025 5 20, endDate = utcDate 2025 7 10,
                    totalPrice = JNull, nightlySubtotal = JNumber 2000\<rparr>
       (utcDate 2025 6 1) (utcDate 2025 7 1) \<noteq> 1200"
  by (simp add: alloc_eval date_eval)

text \<open>
  Claim C2, amended. In any year, a reservation from 20 May to 10 July has 51 nights; the
  periods \<open>[1 May, 1 June)\<close>, \<open>[1 June, 1 July)\<close> and \<open>[1 July, 1 August)\<close> receive
  12, 30 and 9 of them; and with a room revenue of 2000 the June period receives
  \<open>2000 * 30 / 51\<close>, which is less than the full 2000.
\<close>

theorem multi_month_example:
  "nightsInPeriod \<lparr>startDate = utcDate y 5 20, endDate = utcDate y 7 10,
                    totalPrice = tp, nightlySubtotal = ns\<rparr> (utcDate y 5 1) (utcDate y 6 1) = 12
   \<and> nightsInPeriod \<lparr>startDate = utcDate y 5 20, endDate = utcDate y 7 10,
                    totalPrice = tp, nightlySubtotal = ns\<rparr> (utcDate y 6 1) (utcDate y 7 1) = 30
   \<and> nightsInPeriod \<lparr>startDate = utcDate y 5 20, endDate = utcDate y 7 10,
                    totalPrice = tp, nightlySubtotal = ns\<rparr> (utcDate y 7 1) (utcDate y 8 1) = 9
   \<and> differenceInDays (utcDate y 7 10) (utcDate y 5 20) = 51
   \<and> revenueInPeriod \<lparr>startDate = utcDate y 5 20, endDate = utcDate y 7 10,
                    totalPrice = tp, nightlySubtotal = JNumber 2000\<rparr>
         (utcDate y 6 1) (utcDate y 7 1) = 2000 * 30 / 51
   \<and> revenueInPeriod \<lparr>startDate = utcDate y 5 20, endDate = utcDate y 7 10,
                    totalPrice = tp, nightlySubtotal = JDecimal 2000\<rparr>
         (utcDate y 6 1) (utcDate y 7 1) = 2000 * 30 / 51
   \<and> 2000 * 30 / 51 < (2000 :: rat)"
  by (simp add: nightsInPeriod_eq revenueInPeriod_eq differenceInDays_eq authoritativePrice_def
        calendar_eval)

section \<open>Which price field is used\<close>

text \<open>
  Claim C3 says that whenever the room revenue is present the revenue is computed from it
  and never from the gross price. The branch tests truthiness, so a room revenue that is
  the number 0 is passed over: a two-night stay inside the period with room revenue 0 and
  gross price 130 receives the 130.
\<close>

theorem revenue_precedence_counterexample:
  "revenueInPeriod \<lparr>startDate = utcDate 2025 6 1, endDate = utcDate 2025 6 3,
                     totalPrice = JNumber 130, nightlySubtotal = JNumber 0\<rparr>
       (utcDate 2025 6 1) (utcDate 2025 7 1) = 130
   \<and> nightsInPeriod \<lparr>startDate = utcDate 2025 6 1, endDate = utcDate 2025 6 3,
                     totalPrice = JNumber 130, nightlySubtotal = JNumber 0\<rparr>
       (utcDate 2025 6 1) (utcDate 2025 7 1) = 2
   \<and> differenceInDays (utcDate 2025 6 3) (utcDate 2025 6 1) = 2"
  by (simp add: alloc_eval date_eval)

text \<open>
  Claim C3, amended. Whenever the room revenue is truthy (a decimal object, or a number
  other than 0), the revenue of the period is the room revenue divided by the nights of
  the stay, times the nights in the period (0 when the stay has no full night), and it does
  not change when the gross price is replaced by any other value. In particular a room
  revenue of 100 is allocated from 100 whatever the gross price, 130 included. When both
  price fields are null the revenue is 0.
\<close>

theorem revenue_precedence:
  "(truthy (nightlySubtotal r) \<longrightarrow>
      revenueInPeriod r periodStart periodEnd
        = (if 0 < differenceInDays (endDate r) (startDate r)
           then Number (nightlySubtotal r) / of_int (differenceInDays (endDate r) (startDate r))
                * of_int (nightsInPeriod r periodStart periodEnd)
           else 0)
      \<and> revenueInPeriod (r\<lparr>totalPrice := tp\<rparr>) periodStart periodEnd
          = revenueInPeriod r periodStart periodEnd)
   \<and> (nightlySubtotal r = JNumber 100 \<or> nightlySubtotal r = JDecimal 100 \<longrightarrow>
      revenueInPeriod r periodStart periodEnd
        = (if 0 < differenceInDays (endDate r) (startDate r)
           then 100 / of_int (differenceInDays (endDate r) (startDate r))
                * of_int (nightsInPeriod r periodStart periodEnd)
           else 0))
   \<and> (nightlySubtotal r = JNull \<and> totalPrice r = JNull \<longrightarrow>
      revenueInPeriod r periodStart periodEnd = 0)"
  by (auto simp: revenueInPeriod_eq authoritativePrice_def)

theorem revenue_precedence_witness:
  "revenueInPeriod \<lparr>startDate = utcDate 2025 6 1, endDate = utcDate 2025 6 3,
                     totalPrice = JNumber 130, nightlySubtotal = JNumber 100\<rparr>
       (utcDate 2025 6 1) (utcDate 2025 7 1) = 100
   \<and> revenueInPeriod \<lparr>startDate = utcDate 2025 6 1, endDate = utcDate 2025 6 3,
                     totalPrice = JNull, nightlySubtotal = JNull\<rparr>
       (utcDate 2025 6 1) (utcDate 2025 7 1) = 0"
  using revenue_precedence [of "\<lparr>startDate = utcDate 2025 6 1, endDate = utcDate 2025 6 3,
                     totalPrice = JNumber 130, nightlySubtotal = JNumber 100\<rparr>"
                   "utcDate 2025 6 1" "utcDate 2025 7 1" "JNumber 130"]
        revenue_precedence [of "\<lparr>startDate = utcDate 2025 6 1, endDate = utcDate 2025 6 3,
                     totalPrice = JNull, nightlySubtotal = JNull\<rparr>"
                   "utcDate 2025 6 1" "utcDate 2025 7 1" "JNull"]
  by (simp add: nightsInPeriod_eq differenceInDays_eq calendar_eval)

text \<open>
  Claim C10 says that a room revenue that is present but exactly 0 is treated as absent,
  so that the revenue comes from the gross price. That is so for the number 0, which is
  falsy. A decimal object is truthy whatever its value: with room revenue
  \<^verbatim>\<open>new Decimal(0)\<close> and gross price \<^verbatim>\<open>new Decimal(130)\<close> the first branch is taken
  and the two nights receive 0.
\<close>

theorem zero_room_revenue_counterexample:
  "revenueInPeriod \<lparr>startDate = utcDate 2025 6 1, endDate = utcDate 2025 6 3,
                     totalPrice = JDecimal 130, nightlySubtotal = JDecimal 0\<rparr>
       (utcDate 2025 6 1) (utcDate 2025 7 1) = 0
   \<and> nightsInPeriod \<lparr>startDate = utcDate 2025 6 1, endDate = utcDate 2025 6 3,
                     totalPrice = JDecimal 130, nightlySubtotal = JDecimal 0\<rparr>
       (utcDate 2025 6 1) (utcDate 2025 7 1) = 2
   \<and> differenceInDays (utcDate 2025 6 3) (utcDate 2025 6 1) = 2
   \<and> truthy (JDecimal 130) \<and> Number (JDecimal 130) = 130"
  by (simp add: alloc_eval date_eval)

text \<open>
  Claim C10, amended. A room revenue that is the number 0 is treated as absent: when the
  gross price is truthy, the revenue of the period is the gross price divided by the nights
  of the stay, times the nights in the period. A room revenue that is a decimal object of
  value 0 is treated as present, and the revenue of the period is 0.
\<close>

theorem zero_room_revenue:
  "(nightlySubtotal r = JNumber 0 \<longrightarrow> truthy (totalPrice r) \<longrightarrow>
      revenueInPeriod r periodStart periodEnd
        = (if 0 < differenceInDays (endDate r) (startDate r)
           then Number (totalPrice r) / of_int (differenceInDays (endDate r) (startDate r))
                * of_int (nightsInPeriod r periodStart periodEnd)
           else 0))
   \<and> (nightlySubtotal r = JDecimal 0 \<longrightarrow> revenueInPeriod r periodStart periodEnd = 0)"
  by (auto simp: revenueInPeriod_eq authoritativePrice_def)

theorem zero_room_revenue_witness:
  "revenueInPeriod \<lparr>startDate = utcDate 2025 6 1, endDate = utcDate 2025 6 3,
                     totalPrice = JNumber 130, nightlySubtotal = JNumber 0\<rparr>
       (utcDate 2025 6 1) (utcDate 2025 7 1) = 130
   \<and> revenueInPeriod \<lparr>startDate = utcDate 2025 6 1, endDate = utcDate 2025 6 3,
                     totalPrice = JDecimal 130, nightlySubtotal = JDecimal 0\<rparr>
       (utcDate 2025 6 1) (utcDate 2025 7 1) = 0"
  using zero_room_revenue [of "\<lparr>startDate = utcDate 2025 6 1, endDate = utcDate 2025 6 3,
                     totalPrice = JNumber 130, nightlySubtotal = JNumber 0\<rparr>"
                   "utcDate 2025 6 1" "utcDate 2025 7 1"]
        zero_room_revenue [of "\<lparr>startDate = utcDate 2025 6 1, endDate = utcDate 2025 6 3,
                     totalPrice = JDecimal 130, nightlySubtotal = JDecimal 0\<rparr>"
                   "utcDate 2025 6 1" "utcDate 2025 7 1"]
  by (simp add: nightsInPeriod_eq differenceInDays_eq calendar_eval)

section \<open>Overlap with one period\<close>

text \<open>
  Claim C4: in any year, a reservation from 15 January to 15 February has 31 nights, and
  with a room revenue of 3100 the period \<open>[1 January, 1 February)\<close> receives exactly 17
  nights and a revenue of 1700, also as the totals of the aggregation of that one
  reservation.
\<close>

theorem full_containment_example:
  "nightsInPeriod \<lparr>startDate = utcDate y 1 15, endDate = utcDate y 2 15,
                    totalPrice = tp, nightlySubtotal = ns\<rparr> (utcDate y 1 1) (utcDate y 2 1) = 17
   \<and> differenceInDays (utcDate y 2 15) (utcDate y 1 15) = 31
   \<and> revenueInPeriod \<lparr>startDate = utcDate y 1 15, endDate = utcDate y 2 15,
                    totalPrice = tp, nightlySubtotal = JNumber 3100\<rparr>
         (utcDate y 1 1) (utcDate y 2 1) = 1700
   \<and> revenueInPeriod \<lparr>startDate = utcDate y 1 15, endDate = utcDate y 2 15,
                    totalPrice = tp, nightlySubtotal = JDecimal 3100\<rparr>
         (utcDate y 1 1) (utcDate y 2 1) = 1700
   \<and> totalNights (calculateMonthMetrics
         [\<lparr>startDate = utcDate y 1 15, endDate = utcDate y 2 15,
           totalPrice = tp, nightlySubtotal = JNumber 3100\<rparr>]
         (utcDate y 1 1) (utcDate y 2 1) propertyCount) = 17
   \<and> totalRevenue (calculateMonthMetrics
         [\<lparr>startDate = utcDate y 1 15, endDate = utcDate y 2 15,
           totalPrice = tp, nightlySubtotal = JNumber 3100\<rparr>]
         (utcDate y 1 1) (utcDate y 2 1) propertyCount) = 1700"
  by (simp add: calculateMonthMetrics_def loopBody_eq nightsInPeriod_eq revenueInPeriod_eq
        differenceInDays_eq authoritativePrice_def calendar_eval)

text \<open>
  Claim C5: a reservation that ends where the period starts, or starts where the period
  ends, receives no nights and no revenue in that period; and whenever the clamped overlap
  has its end at or before its start, the reservation receives nothing and the loop body
  leaves both accumulators as they are.
\<close>

theorem boundary_half_open:
  "(endDate r = periodStart \<longrightarrow>
      nightsInPeriod r periodStart periodEnd = 0 \<and> revenueInPeriod r periodStart periodEnd = 0)
   \<and> (startDate r = periodEnd \<longrightarrow>
      nightsInPeriod r periodStart periodEnd = 0 \<and> revenueInPeriod r periodStart periodEnd = 0)
   \<and> ((if isBefore (endDate r) periodEnd then endDate r else periodEnd)
          \<le> (if isAfter (startDate r) periodStart then startDate r else periodStart) \<longrightarrow>
      nightsInPeriod r periodStart periodEnd = 0 \<and> revenueInPeriod r periodStart periodEnd = 0
      \<and> loopBody periodStart periodEnd acc r = acc)"
  unfolding nightsInPeriod_def revenueInPeriod_def loopBody_def Let_def isAfter_def isBefore_def
  by auto

theorem boundary_half_open_witness:
  "nightsInPeriod \<lparr>startDate = utcDate 2025 5 20, endDate = utcDate 2025 6 1,
                    totalPrice = JNull, nightlySubtotal = JNumber 1200\<rparr>
       (utcDate 2025 6 1) (utcDate 2025 7 1) = 0
   \<and> revenueInPeriod \<lparr>startDate = utcDate 2025 5 20, endDate = utcDate 2025 6 1,
                    totalPrice = JNull, nightlySubtotal = JNumber 1200\<rparr>
       (utcDate 2025 6 1) (utcDate 2025 7 1) = 0
   \<and> nightsInPeriod \<lparr>startDate = utcDate 2025 7 1, endDate = utcDate 2025 7 10,
                    totalPrice = JNull, nightlySubtotal = JNumber 900\<rparr>
       (utcDate 2025 6 1) (utcDate 2025 7 1) = 0
   \<and> revenueInPeriod \<lparr>startDate = utcDate 2025 7 1, endDate = utcDate 2025 7 10,
                    totalPrice = JNull, nightlySubtotal = JNumber 900\<rparr>
       (utcDate 2025 6 1) (utcDate 2025 7 1) = 0
   \<and> loopBody (utcDate 2025 6 1) (utcDate 2025 7 1) (5, 500)
         \<lparr>startDate = utcDate 2025 8 3, endDate = utcDate 2025 8 9,
          totalPrice = JNull, nightlySubtotal = JNumber 600\<rparr> = (5, 500)"
  using boundary_half_open [of "\<lparr>startDate = utcDate 2025 5 20, endDate = utcDate 2025 6 1,
                    totalPrice = JNull, nightlySubtotal = JNumber 1200\<rparr>"
                 "utcDate 2025 6 1" "utcDate 2025 7 1"]
        boundary_half_open [of "\<lparr>startDate = utcDate 2025 7 1, endDate = utcDate 2025 7 10,
                    totalPrice = JNull, nightlySubtotal = JNumber 900\<rparr>"
                 "utcDate 2025 6 1" "utcDate 2025 7 1"]
        boundary_half_open [of "\<lparr>startDate = utcDate 2025 8 3, endDate = utcDate 2025 8 9,
                    totalPrice = JNull, nightlySubtotal = JNumber 600\<rparr>"
                 "utcDate 2025 6 1" "utcDate 2025 7 1" "(5, 500)"]
  by (simp add: isAfter_def isBefore_def calendar_eval)

section \<open>The aggregate\<close>


text \<open>
  For every period, one property booked throughout is one night short of full.
\<close>

lemma fully_booked_never_full:
  assumes "monthStart \<le> monthEnd" "startDate r \<le> monthStart" "monthEnd \<le> endDate r"
  shows "totalNights (calculateMonthMetrics [r] monthStart monthEnd 1) + 1
           = totalAvailableNights (calculateMonthMetrics [r] monthStart monthEnd 1)"
proof -
  have "nightsInPeriod r monthStart monthEnd = differenceInDays monthEnd monthStart"
    using assms nightsInPeriod_le [of r monthStart monthEnd]
    by (simp add: differenceInDays_eq max_def min_def)
  then show ?thesis
    by (simp add: calculateMonthMetrics_def Let_def loopBody_eq)
qed

text \<open>
  Claim C7: the aggregate is a total function (the source has no operation that throws on
  these inputs, and every division is guarded). For no reservations and no inventory the
  three ratios are null. The average daily rate is null exactly when the total of nights
  is 0. For an inventory size that is not negative and a period whose end is not before
  its start, occupancy and revenue per available night are null exactly when the
  available nights are 0.
\<close>

theorem null_safe:
  "adr (calculateMonthMetrics [] monthStart monthEnd 0) = None
   \<and> occupancy (calculateMonthMetrics [] monthStart monthEnd 0) = None
   \<and> revpar (calculateMonthMetrics [] monthStart monthEnd 0) = None
   \<and> (adr (calculateMonthMetrics reservations monthStart monthEnd propertyCount) = None
        \<longleftrightarrow> totalNights (calculateMonthMetrics reservations monthStart monthEnd propertyCount) = 0)
   \<and> (0 \<le> propertyCount \<and> monthStart \<le> monthEnd \<longrightarrow>
        (occupancy (calculateMonthMetrics reservations monthStart monthEnd propertyCount) = None
           \<longleftrightarrow> totalAvailableNights (calculateMonthMetrics reservations monthStart monthEnd propertyCount) = 0)
      \<and> (revpar (calculateMonthMetrics reservations monthStart monthEnd propertyCount) = None
           \<longleftrightarrow> totalAvailableNights (calculateMonthMetrics reservations monthStart monthEnd propertyCount) = 0))"
proof -
  let ?m = "calculateMonthMetrics reservations monthStart monthEnd propertyCount"
  have empty: "adr (calculateMonthMetrics [] monthStart monthEnd 0) = None
     \<and> occupancy (calculateMonthMetrics [] monthStart monthEnd 0) = None
     \<and> revpar (calculateMonthMetrics [] monthStart monthEnd 0) = None"
    by (simp add: calculateMonthMetrics_def)
  have a: "adr ?m = None \<longleftrightarrow> totalNights ?m = 0"
    using totalNights_nonneg [of reservations monthStart monthEnd propertyCount]
    by (auto simp: calculateMonthMetrics_def Let_def)
  have av: "0 \<le> totalAvailableNights ?m" if "0 \<le> propertyCount" "monthStart \<le> monthEnd"
    using that differenceInDays_nonneg [of monthStart monthEnd]
    by (simp add: calculateMonthMetrics_def Let_def)
  have o: "occupancy ?m = None \<longleftrightarrow> totalAvailableNights ?m \<le> 0"
    by (simp add: calculateMonthMetrics_def Let_def)
  have p: "revpar ?m = None \<longleftrightarrow> totalAvailableNights ?m \<le> 0"
    by (simp add: calculateMonthMetrics_def Let_def)
  have d: "0 \<le> propertyCount \<and> monthStart \<le> monthEnd \<longrightarrow>
        (occupancy ?m = None \<longleftrightarrow> totalAvailableNights ?m = 0)
      \<and> (revpar ?m = None \<longleftrightarrow> totalAvailableNights ?m = 0)"
    using av o p by auto
  show ?thesis using empty a d by blast
qed

theorem null_safe_witness:
  "occupancy (calculateMonthMetrics [] (utcDate 2025 6 1) (utcDate 2025 7 1 - 1) 0) = None
   \<and> totalAvailableNights (calculateMonthMetrics [] (utcDate 2025 6 1) (utcDate 2025 7 1 - 1) 0) = 0
   \<and> occupancy (calculateMonthMetrics [] (utcDate 2025 6 1) (utcDate 2025 7 1 - 1) 2) \<noteq> None
   \<and> totalAvailableNights (calculateMonthMetrics [] (utcDate 2025 6 1) (utcDate 2025 7 1 - 1) 2) = 60"
  using null_safe [of "utcDate 2025 6 1" "utcDate 2025 7 1 - 1" "[]" 0]
        null_safe [of "utcDate 2025 6 1" "utcDate 2025 7 1 - 1" "[]" 2]
  by (simp add: calculateMonthMetrics_def date_eval)

text \<open>
  Claim C9 says that the aggregate of any permutation of a list of reservations is the same
  record. The nights are whole numbers, but the revenue is a sum of binary64 numbers, and
  that addition rounds and is not associative: three stays of one night at 89.95, 129.99
  and 150.1 add up to 370.03999999999996 in this order and to 370.04 in the reverse order.
\<close>

theorem order_independence_counterexample:
  "totalRevenue (calculateMonthMetricsWith roundDouble
     [\<lparr>startDate = utcDate 2025 6 1, endDate = utcDate 2025 6 2, totalPrice = JNull, nightlySubtotal = JDecimal (8995 / 100)\<rparr>,
      \<lparr>startDate = utcDate 2025 6 3, endDate = utcDate 2025 6 4, totalPrice = JNull, nightlySubtotal = JDecimal (12999 / 100)\<rparr>,
      \<lparr>startDate = utcDate 2025 6 5, endDate = utcDate 2025 6 6, totalPrice = JNull, nightlySubtotal = JDecimal (1501 / 10)\<rparr>]
     (utcDate 2025 6 1) (utcDate 2025 7 1) 1) = 406863282742231 / 1099511627776
   \<and> totalRevenue (calculateMonthMetricsWith roundDouble
     [\<lparr>startDate = utcDate 2025 6 5, endDate = utcDate 2025 6 6, totalPrice = JNull, nightlySubtotal = JDecimal (1501 / 10)\<rparr>,
      \<lparr>startDate = utcDate 2025 6 3, endDate = utcDate 2025 6 4, totalPrice = JNull, nightlySubtotal = JDecimal (12999 / 100)\<rparr>,
      \<lparr>startDate = utcDate 2025 6 1, endDate = utcDate 2025 6 2, totalPrice = JNull, nightlySubtotal = JDecimal (8995 / 100)\<rparr>]
     (utcDate 2025 6 1) (utcDate 2025 7 1) 1) = 6509812523875697 / 17592186044416"
  by code_simp

text \<open>
  Claim C9, amended. The aggregate of any permutation of a list of reservations has the
  same total of nights, the same available nights and the same occupancy, whatever the
  rounding of the arithmetic; and in exact arithmetic it is the same record, so that the
  total revenue, the average daily rate and the revenue per available night of two orders
  differ by rounding only.
\<close>

theorem order_independence_rounded:
  assumes "mset reservations = mset reservations'"
  shows "calculateMonthMetrics reservations monthStart monthEnd propertyCount
           = calculateMonthMetrics reservations' monthStart monthEnd propertyCount
       \<and> totalNights (calculateMonthMetricsWith rnd reservations monthStart monthEnd propertyCount)
           = totalNights (calculateMonthMetricsWith rnd reservations' monthStart monthEnd propertyCount)
       \<and> totalAvailableNights (calculateMonthMetricsWith rnd reservations monthStart monthEnd propertyCount)
           = totalAvailableNights (calculateMonthMetricsWith rnd reservations' monthStart monthEnd propertyCount)
       \<and> occupancy (calculateMonthMetricsWith rnd reservations monthStart monthEnd propertyCount)
           = occupancy (calculateMonthMetricsWith rnd reservations' monthStart monthEnd propertyCount)"
proof -
  have "sum_list (map f reservations) = sum_list (map f reservations')"
    for f :: "reservation \<Rightarrow> int"
    using assms by (metis mset_map sum_mset_sum_list)
  then have "fst (foldl (loopBodyWith rnd monthStart monthEnd) (0, 0) reservations)
               = fst (foldl (loopBodyWith rnd monthStart monthEnd) (0, 0) reservations')"
    by (simp add: fst_foldl_loopBodyWith)
  then show ?thesis
    using order_independence_exact [OF assms]
    by (simp add: calculateMonthMetricsWith_def Let_def)
qed

theorem order_independence_rounded_witness:
  "calculateMonthMetrics
     [\<lparr>startDate = utcDate 2025 6 1, endDate = utcDate 2025 6 2, totalPrice = JNull, nightlySubtotal = JDecimal (8995 / 100)\<rparr>,
      \<lparr>startDate = utcDate 2025 6 3, endDate = utcDate 2025 6 4, totalPrice = JNull, nightlySubtotal = JDecimal (12999 / 100)\<rparr>]
     (utcDate 2025 6 1) (utcDate 2025 7 1) 1
   = calculateMonthMetrics
     [\<lparr>startDate = utcDate 2025 6 3, endDate = utcDate 2025 6 4, totalPrice = JNull, nightlySubtotal = JDecimal (12999 / 100)\<rparr>,
      \<lparr>startDate = utcDate 2025 6 1, endDate = utcDate 2025 6 2, totalPrice = JNull, nightlySubtotal = JDecimal (8995 / 100)\<rparr>]
     (utcDate 2025 6 1) (utcDate 2025 7 1) 1
   \<and> occupancy (calculateMonthMetricsWith roundDouble
     [\<lparr>startDate = utcDate 2025 6 1, endDate = utcDate 2025 6 2, totalPrice = JNull, nightlySubtotal = JDecimal (8995 / 100)\<rparr>,
      \<lparr>startDate = utcDate 2025 6 3, endDate = utcDate 2025 6 4, totalPrice = JNull, nightlySubtotal = JDecimal (12999 / 100)\<rparr>]
     (utcDate 2025 6 1) (utcDate 2025 7 1) 1)
   = occupancy (calculateMonthMetricsWith roundDouble
     [\<lparr>startDate = utcDate 2025 6 3, endDate = utcDate 2025 6 4, totalPrice = JNull, nightlySubtotal = JDecimal (12999 / 100)\<rparr>,
      \<lparr>startDate = utcDate 2025 6 1, endDate = utcDate 2025 6 2, totalPrice = JNull, nightlySubtotal = JDecimal (8995 / 100)\<rparr>]
     (utcDate 2025 6 1) (utcDate 2025 7 1) 1)"
  using order_independence_rounded [where rnd = roundDouble
     and reservations = "[\<lparr>startDate = utcDate 2025 6 1, endDate = utcDate 2025 6 2, totalPrice = JNull, nightlySubtotal = JDecimal (8995 / 100)\<rparr>,
      \<lparr>startDate = utcDate 2025 6 3, endDate = utcDate 2025 6 4, totalPrice = JNull, nightlySubtotal = JDecimal (12999 / 100)\<rparr>]"
     and reservations' = "[\<lparr>startDate = utcDate 2025 6 3, endDate = utcDate 2025 6 4, totalPrice = JNull, nightlySubtotal = JDecimal (12999 / 100)\<rparr>,
      \<lparr>startDate = utcDate 2025 6 1, endDate = utcDate 2025 6 2, totalPrice = JNull, nightlySubtotal = JDecimal (8995 / 100)\<rparr>]"
     and monthStart = "utcDate 2025 6 1" and monthEnd = "utcDate 2025 7 1" and propertyCount = 1]
  by simp

section \<open>Percentage change\<close>

text \<open>
  Claim C8: the percentage change is null exactly when the current value is null, the
  baseline is null or the baseline is 0; otherwise it is the difference over the baseline,
  times 100. In particular the change from a baseline of 0 to 50 is null.
\<close>

theorem percentage_variance:
  "(calculatePercentageChange current baseline = None
      \<longleftrightarrow> current = None \<or> baseline = None \<or> baseline = Some 0)
   \<and> (\<forall>c b. current = Some c \<longrightarrow> baseline = Some b \<longrightarrow> b \<noteq> 0 \<longrightarrow>
        calculatePercentageChange current baseline = Some ((c - b) / b * 100))
   \<and> calculatePercentageChange (Some 50) (Some 0) = None"
  by (auto simp: calculatePercentageChange_def)

theorem percentage_variance_witness:
  "calculatePercentageChange (Some 75) (Some 50) = Some 50
   \<and> calculatePercentageChange (Some 75) (Some 50) \<noteq> None"
  using percentage_variance [of "Some 75" "Some 50"] by simp

section \<open>Periods as the callers pass them\<close>

text \<open>
  The two callers pass \<^verbatim>\<open>endOfMonth(monthStart)\<close>, the last millisecond of the month,
  as the end of the period. The available nights then are the inventory size times the
  calendar days of the month, but the full days of an overlap clamped at that instant do
  not count the last day: the night of 30 June of a stay that checks out on 1 July is
  counted neither in June nor in July.
\<close>

lemma availableNights_last_instant:
  "0 < k \<Longrightarrow>
     totalAvailableNights
       (calculateMonthMetrics reservations monthStart (monthStart + k * msPerDay - 1) propertyCount)
     = propertyCount * k"
  by (simp add: calculateMonthMetrics_def Let_def differenceInDays_last_instant)

lemma endOfMonth_period_example:
  "nightsInPeriod \<lparr>startDate = utcDate 2025 6 30, endDate = utcDate 2025 7 1,
                    totalPrice = JNull, nightlySubtotal = JNumber 100\<rparr>
       (utcDate 2025 6 1) (utcDate 2025 7 1 - 1) = 0
   \<and> nightsInPeriod \<lparr>startDate = utcDate 2025 6 30, endDate = utcDate 2025 7 1,
                    totalPrice = JNull, nightlySubtotal = JNumber 100\<rparr>
       (utcDate 2025 7 1) (utcDate 2025 8 1 - 1) = 0
   \<and> differenceInDays (utcDate 2025 7 1) (utcDate 2025 6 30) = 1
   \<and> nightsInPeriod \<lparr>startDate = utcDate 2025 5 20, endDate = utcDate 2025 7 10,
                    totalPrice = JNull, nightlySubtotal = JNumber 2000\<rparr>
       (utcDate 2025 6 1) (utcDate 2025 7 1 - 1) = 29"
  by (simp add: alloc_eval date_eval)

end
